theory Spec2Isabelle
  imports Main "HOL-Library.Sublist"
begin

section \<open>Data model (models.py, database_firebase.py, ai_agent.py)\<close>

text \<open>
  \<^verbatim>\<open>RequestStatus\<close> of models.py. The store holds the strings \<^verbatim>\<open>'pending'\<close>,
  \<^verbatim>\<open>'resolved'\<close> and \<^verbatim>\<open>'unresolved'\<close>.
\<close>

datatype request_status = PENDING | RESOLVED | UNRESOLVED

text \<open>
  A time field as it is read back from a document. Instants are microseconds since
  \<^verbatim>\<open>datetime.min\<close> (0001-01-01T00:00:00) on the clock of \<^verbatim>\<open>datetime.now()\<close>.
  \<open>IsoString t\<close> is a \<^verbatim>\<open>str\<close> in ISO format without a UTC offset that denotes \<open>t\<close>;
  \<open>IsoStringOffset t\<close> is a \<^verbatim>\<open>str\<close> in ISO format with a UTC offset; \<open>Native t\<close> is a
  value that is not a string, such as the \<^verbatim>\<open>datetime\<close> object that Firestore returns for a
  field written as \<^verbatim>\<open>firestore.SERVER_TIMESTAMP\<close>. The operations that write a server
  timestamp take the value that is read back as the parameter \<open>stamp\<close>; for the writes of
  this code it is a \<open>Native\<close> value.
\<close>

datatype stored_time = IsoString int | IsoStringOffset int | Native int

fun instant :: "stored_time \<Rightarrow> int" where
  "instant (IsoString t) = t"
| "instant (IsoStringOffset t) = t"
| "instant (Native t) = t"

text \<open>One entry of a conversation: \<^verbatim>\<open>{"role": ..., "content": ...}\<close>.\<close>

record turn =
  role :: string
  content :: string

text \<open>
  The \<^verbatim>\<open>context\<close> dict of a help request: the snapshot written on the marker path
  (\<^verbatim>\<open>conversation_history\<close>, \<^verbatim>\<open>additional_context\<close>), the \<^verbatim>\<open>{'error': str(e)}\<close> of the
  fallback path, or \<^verbatim>\<open>{}\<close>.
\<close>

datatype request_context =
    EscalationContext "turn list" "(string \<times> string) list"
  | ErrorContext string
  | EmptyContext

record help_request =
  req_id :: nat
  question :: string
  customer_id :: string
  customer_phone :: "string option"
  req_context :: request_context
  status :: request_status
  created_at :: stored_time
  resolved_at :: "stored_time option"
  supervisor_answer :: "string option"
  supervisor_id :: "string option"

record knowledge_entry =
  kb_id :: nat
  kb_question :: string
  kb_answer :: string
  kb_source :: string
  kb_tags :: "string list"
  kb_created_at :: stored_time
  kb_updated_at :: stored_time
  usage_count :: int

text \<open>The dict returned by \<^verbatim>\<open>process_question\<close> (\<^verbatim>\<open>AgentResponse\<close> of models.py).\<close>

record agent_response =
  response :: string
  needs_help :: bool
  help_request_id :: "nat option"
  knowledge_used :: "nat option"

section \<open>Collections of documents\<close>

text \<open>
  A collection is the list of its documents, each under its document id, in the order in
  which \<^verbatim>\<open>stream()\<close> yields them. Document ids are numbers here.
\<close>

type_synonym 'a collection = "(nat \<times> 'a) list"

text \<open>
  \<^verbatim>\<open>collection.document()\<close> without an argument: a reference with an auto-generated id that
  no document of the collection has (here: one above the largest id in use).
\<close>

definition auto_id :: "'a collection \<Rightarrow> nat" where
  "auto_id c = fold (\<lambda>kd m. max (Suc (fst kd)) m) c 0"

text \<open>
  \<^verbatim>\<open>doc_ref.set(data)\<close> on a reference obtained from \<^verbatim>\<open>document()\<close>: a new document.
  Its place in the order of \<^verbatim>\<open>stream()\<close> (the last one here) depends on the id that Firestore
  generates.
\<close>

definition doc_set :: "nat \<Rightarrow> 'a \<Rightarrow> 'a collection \<Rightarrow> 'a collection" where
  "doc_set k d c = c @ [(k, d)]"

text \<open>\<^verbatim>\<open>collection.document(k).get()\<close>: \<open>None\<close> when \<^verbatim>\<open>doc.exists\<close> is false.\<close>

fun doc_get :: "'a collection \<Rightarrow> nat \<Rightarrow> 'a option" where
  "doc_get [] k = None"
| "doc_get ((k', d) # c) k = (if k' = k then Some d else doc_get c k)"

text \<open>
  \<^verbatim>\<open>collection.document(k).update(fields)\<close>: changes the fields of the document \<open>k\<close>, and
  raises (\<open>None\<close>) when there is no such document.
\<close>

fun doc_update :: "('a \<Rightarrow> 'a) \<Rightarrow> nat \<Rightarrow> 'a collection \<Rightarrow> 'a collection option" where
  "doc_update f k [] = None"
| "doc_update f k ((k', d) # c) =
     (if k' = k then Some ((k', f d) # c)
      else (case doc_update f k c of None \<Rightarrow> None | Some c' \<Rightarrow> Some ((k', d) # c')))"

text \<open>\<^verbatim>\<open>[doc.to_dict() for doc in collection.stream()]\<close>.\<close>

definition stream :: "'a collection \<Rightarrow> 'a list" where
  "stream c = map snd c"

text \<open>
  What Firestore guarantees of a collection whose documents were all written by this
  code: document ids are unique, and the \<^verbatim>\<open>'id'\<close> field of a document is its id.
\<close>

definition wf_collection :: "('a \<Rightarrow> nat) \<Rightarrow> 'a collection \<Rightarrow> bool" where
  "wf_collection idf c = (distinct (map fst c) \<and> list_all (\<lambda>kd. idf (snd kd) = fst kd) c)"

section \<open>database_firebase.py\<close>

text \<open>\<^verbatim>\<open>create_help_request\<close>: returns the new id and the collection.\<close>

definition create_help_request ::
  "stored_time \<Rightarrow> string \<Rightarrow> string \<Rightarrow> string option \<Rightarrow> request_context option \<Rightarrow>
   help_request collection \<Rightarrow> nat \<times> help_request collection" where
  "create_help_request stamp q cid phone ctx c =
     (let k = auto_id c;
          request_data = \<lparr>req_id = k, question = q, customer_id = cid, customer_phone = phone,
            req_context = (case ctx of None \<Rightarrow> EmptyContext | Some x \<Rightarrow> x),
            status = PENDING, created_at = stamp, resolved_at = None,
            supervisor_answer = None, supervisor_id = None\<rparr>
      in (k, doc_set k request_data c))"

definition get_help_request :: "help_request collection \<Rightarrow> nat \<Rightarrow> help_request option" where
  "get_help_request c k = doc_get c k"

text \<open>
  \<^verbatim>\<open>get_pending_requests\<close>: \<^verbatim>\<open>where('status', '==', 'pending')\<close>, ordered by \<^verbatim>\<open>created_at\<close>,
  latest first.
\<close>

definition get_pending_requests :: "help_request collection \<Rightarrow> help_request list" where
  "get_pending_requests c =
     rev (sort_key (\<lambda>r. instant (created_at r)) (filter (\<lambda>r. status r = PENDING) (stream c)))"

text \<open>
  \<^verbatim>\<open>update_help_request\<close>: the update is unconditional; the \<^verbatim>\<open>except\<close> branch (no such
  document) returns \<^verbatim>\<open>False\<close> and leaves the collection as it was.
\<close>

definition update_help_request ::
  "stored_time \<Rightarrow> nat \<Rightarrow> string \<Rightarrow> string \<Rightarrow> request_status \<Rightarrow>
   help_request collection \<Rightarrow> bool \<times> help_request collection" where
  "update_help_request stamp k ans sup_id st c =
     (case doc_update (\<lambda>r. r\<lparr>supervisor_answer := Some ans, supervisor_id := Some sup_id,
                               status := st, resolved_at := Some stamp\<rparr>) k c of
        Some c' \<Rightarrow> (True, c')
      | None \<Rightarrow> (False, c))"

text \<open>\<^verbatim>\<open>mark_request_unresolved\<close>: likewise unconditional.\<close>

definition mark_request_unresolved ::
  "stored_time \<Rightarrow> nat \<Rightarrow> help_request collection \<Rightarrow> bool \<times> help_request collection" where
  "mark_request_unresolved stamp k c =
     (case doc_update (\<lambda>r. r\<lparr>status := UNRESOLVED, resolved_at := Some stamp\<rparr>) k c of
        Some c' \<Rightarrow> (True, c')
      | None \<Rightarrow> (False, c))"

text \<open>\<^verbatim>\<open>add_knowledge\<close>: always a new document; \<^verbatim>\<open>tags or []\<close>.\<close>

definition add_knowledge ::
  "stored_time \<Rightarrow> string \<Rightarrow> string \<Rightarrow> string \<Rightarrow> string list option \<Rightarrow>
   knowledge_entry collection \<Rightarrow> nat \<times> knowledge_entry collection" where
  "add_knowledge stamp q a src tgs c =
     (let k = auto_id c;
          knowledge_data = \<lparr>kb_id = k, kb_question = q, kb_answer = a, kb_source = src,
            kb_tags = (case tgs of None \<Rightarrow> [] | Some ts \<Rightarrow> ts),
            kb_created_at = stamp, kb_updated_at = stamp, usage_count = 0\<rparr>
      in (k, doc_set k knowledge_data c))"

text \<open>
  Strings are lists of code points below 256. \<^verbatim>\<open>str.lower()\<close> changes, among these, the
  letters A to Z and the capital letters from U+00C0 to U+00DE (U+00D7, the
  multiplication sign, is not a letter). Then the \<^verbatim>\<open>in\<close> test on strings.
\<close>

definition upper_letters :: string where
  "upper_letters = ''ABCDEFGHIJKLMNOPQRSTUVWXYZ'' @
     [CHR 0xC0, CHR 0xC1, CHR 0xC2, CHR 0xC3, CHR 0xC4, CHR 0xC5, CHR 0xC6, CHR 0xC7,
      CHR 0xC8, CHR 0xC9, CHR 0xCA, CHR 0xCB, CHR 0xCC, CHR 0xCD, CHR 0xCE, CHR 0xCF,
      CHR 0xD0, CHR 0xD1, CHR 0xD2, CHR 0xD3, CHR 0xD4, CHR 0xD5, CHR 0xD6,
      CHR 0xD8, CHR 0xD9, CHR 0xDA, CHR 0xDB, CHR 0xDC, CHR 0xDD, CHR 0xDE]"

definition lower_letters :: string where
  "lower_letters = ''abcdefghijklmnopqrstuvwxyz'' @
     [CHR 0xE0, CHR 0xE1, CHR 0xE2, CHR 0xE3, CHR 0xE4, CHR 0xE5, CHR 0xE6, CHR 0xE7,
      CHR 0xE8, CHR 0xE9, CHR 0xEA, CHR 0xEB, CHR 0xEC, CHR 0xED, CHR 0xEE, CHR 0xEF,
      CHR 0xF0, CHR 0xF1, CHR 0xF2, CHR 0xF3, CHR 0xF4, CHR 0xF5, CHR 0xF6,
      CHR 0xF8, CHR 0xF9, CHR 0xFA, CHR 0xFB, CHR 0xFC, CHR 0xFD, CHR 0xFE]"

definition lower_char :: "char \<Rightarrow> char" where
  "lower_char ch =
     (case map_of (zip upper_letters lower_letters) ch of
        Some l \<Rightarrow> l
      | None \<Rightarrow> ch)"

definition lower :: "string \<Rightarrow> string" where
  "lower s = map lower_char s"

fun str_in :: "string \<Rightarrow> string \<Rightarrow> bool" where
  "str_in q [] = (q = [])"
| "str_in q (ch # s) = (prefix q (ch # s) \<or> str_in q s)"

text \<open>\<^verbatim>\<open>search_knowledge\<close>: every entry whose question or answer contains the query.\<close>

definition knowledge_matches :: "string \<Rightarrow> knowledge_entry \<Rightarrow> bool" where
  "knowledge_matches query_lower data =
     (str_in query_lower (lower (kb_question data)) \<or> str_in query_lower (lower (kb_answer data)))"

definition search_knowledge :: "knowledge_entry collection \<Rightarrow> string \<Rightarrow> knowledge_entry list" where
  "search_knowledge c query = filter (knowledge_matches (lower query)) (stream c)"

text \<open>\<^verbatim>\<open>increment_knowledge_usage\<close>: \<^verbatim>\<open>firestore.Increment(1)\<close> on \<^verbatim>\<open>usage_count\<close>.\<close>

definition increment_knowledge_usage ::
  "nat \<Rightarrow> knowledge_entry collection \<Rightarrow> bool \<times> knowledge_entry collection" where
  "increment_knowledge_usage k c =
     (case doc_update (\<lambda>d. d\<lparr>usage_count := usage_count d + 1\<rparr>) k c of
        Some c' \<Rightarrow> (True, c')
      | None \<Rightarrow> (False, c))"

section \<open>ai_agent.py\<close>

text \<open>
  The agent and the database it writes to: the two collections, the per-customer
  \<^verbatim>\<open>conversation_history\<close> dict and \<^verbatim>\<open>self.system_prompt\<close>.
\<close>

record state =
  requests_collection :: "help_request collection"
  knowledge_collection :: "knowledge_entry collection"
  conversation_history :: "string \<Rightarrow> turn list option"
  system_prompt :: string

text \<open>
  The outcome of lines 125 to 132 (the call and \<^verbatim>\<open>response.choices[0].message.content\<close>):
  the content, or an exception with its \<^verbatim>\<open>str(e)\<close>.
\<close>

datatype llm_outcome = Reply string | Raised string

text \<open>The slice \<^verbatim>\<open>xs[-n:]\<close> for \<open>n > 0\<close>: the last \<open>n\<close> elements, all of them when there are fewer.\<close>

definition last_n :: "nat \<Rightarrow> 'a list \<Rightarrow> 'a list" where
  "last_n n xs = drop (length xs - n) xs"

text \<open>
  \<^verbatim>\<open>str.strip()\<close>: the code points below 256 that it removes are U+0009 to U+000D,
  U+001C to U+0020, U+0085 and U+00A0.
\<close>

definition is_space :: "char \<Rightarrow> bool" where
  "is_space ch = (ch \<in> set [CHR 0x09, CHR 0x0A, CHR 0x0B, CHR 0x0C, CHR 0x0D,
                             CHR 0x1C, CHR 0x1D, CHR 0x1E, CHR 0x1F, CHR 0x20,
                             CHR 0x85, CHR 0xA0])"

definition strip :: "string \<Rightarrow> string" where
  "strip s = rev (dropWhile is_space (rev (dropWhile is_space s)))"

definition ESCALATE :: string where
  "ESCALATE = ''[ESCALATE]''"

definition escalation_message :: string where
  "escalation_message =
     ''Let me check with my supervisor and get back to you shortly. We'll call you back with the answer!''"

definition fallback_message :: string where
  "fallback_message =
     ''I'm having trouble processing your request. Let me get a supervisor to help you.''"

text \<open>
  The \<^verbatim>\<open>messages\<close> list sent to the model: the two system messages (the second one's text,
  the escalation rules, is the parameter \<open>rules\<close>), the history window and the question.
\<close>

definition build_messages :: "string \<Rightarrow> string \<Rightarrow> turn list \<Rightarrow> string \<Rightarrow> turn list" where
  "build_messages sys rules history q =
     [\<lparr>role = ''system'', content = sys\<rparr>, \<lparr>role = ''system'', content = rules\<rparr>]
     @ last_n 5 history
     @ [\<lparr>role = ''user'', content = q\<rparr>]"

definition turns_of :: "(string \<Rightarrow> turn list option) \<Rightarrow> string \<Rightarrow> turn list" where
  "turns_of h cid = (case h cid of None \<Rightarrow> [] | Some ts \<Rightarrow> ts)"

text \<open>
  \<^verbatim>\<open>AIAgent.process_question\<close>. \<open>llm\<close> is the model call, \<open>stamp\<close> the server timestamp of the
  writes made during the call. The text computed by \<^verbatim>\<open>replace("[ESCALATE]", "")\<close> on the
  marker path is never used and is left out.
\<close>

definition process_question ::
  "(turn list \<Rightarrow> llm_outcome) \<Rightarrow> string \<Rightarrow> stored_time \<Rightarrow> string \<Rightarrow> string \<Rightarrow> string option \<Rightarrow>
   (string \<times> string) list option \<Rightarrow> state \<Rightarrow> agent_response \<times> state" where
  "process_question llm rules stamp q cid phone ctx st0 =
     (let st = (if conversation_history st0 cid = None
                then st0\<lparr>conversation_history := (conversation_history st0)(cid \<mapsto> [])\<rparr>
                else st0);
          history = turns_of (conversation_history st) cid
      in case search_knowledge (knowledge_collection st) q of
           hit # _ \<Rightarrow>
             (let (ok, kc) = increment_knowledge_usage (kb_id hit) (knowledge_collection st)
              in (\<lparr>response = kb_answer hit, needs_help = False, help_request_id = None,
                   knowledge_used = Some (kb_id hit)\<rparr>,
                  st\<lparr>knowledge_collection := kc\<rparr>))
         | [] \<Rightarrow>
             (case llm (build_messages (system_prompt st) rules history q) of
                Reply text \<Rightarrow>
                  (let ai_response = strip text in
                   if prefix ESCALATE ai_response then
                     (let (rid, rc) = create_help_request stamp q cid phone
                            (Some (EscalationContext (last_n 3 history)
                               (case ctx of None \<Rightarrow> [] | Some x \<Rightarrow> x)))
                            (requests_collection st)
                      in (\<lparr>response = escalation_message, needs_help = True,
                           help_request_id = Some rid, knowledge_used = None\<rparr>,
                          st\<lparr>requests_collection := rc,
                             conversation_history := (conversation_history st)(cid \<mapsto>
                               history @ [\<lparr>role = ''user'', content = q\<rparr>,
                                          \<lparr>role = ''assistant'', content = escalation_message\<rparr>])\<rparr>))
                   else
                     (\<lparr>response = ai_response, needs_help = False, help_request_id = None,
                       knowledge_used = None\<rparr>,
                      st\<lparr>conversation_history := (conversation_history st)(cid \<mapsto>
                           history @ [\<lparr>role = ''user'', content = q\<rparr>,
                                      \<lparr>role = ''assistant'', content = ai_response\<rparr>])\<rparr>))
              | Raised e \<Rightarrow>
                  (let (rid, rc) = create_help_request stamp q cid phone (Some (ErrorContext e))
                         (requests_collection st)
                   in (\<lparr>response = fallback_message, needs_help = True,
                        help_request_id = Some rid, knowledge_used = None\<rparr>,
                       st\<lparr>requests_collection := rc\<rparr>))))"

text \<open>
  \<^verbatim>\<open>follow_up_with_customer\<close>: the printing aside, one assistant turn for a customer whose
  history is resident.
\<close>

definition follow_up_with_customer ::
  "string \<Rightarrow> string option \<Rightarrow> string \<Rightarrow> string \<Rightarrow> state \<Rightarrow> state" where
  "follow_up_with_customer cid phone q a st =
     (case conversation_history st cid of
        None \<Rightarrow> st
      | Some ts \<Rightarrow> st\<lparr>conversation_history := (conversation_history st)(cid \<mapsto>
          ts @ [\<lparr>role = ''assistant'',
                 content = ''Following up on your question: '' @ q @ ''. Here's the answer: '' @ a\<rparr>])\<rparr>)"

text \<open>
  \<^verbatim>\<open>AIAgent.handle_supervisor_response\<close>: \<^verbatim>\<open>False\<close> when the request is not found; no other
  check is made before the update.
\<close>

definition handle_supervisor_response ::
  "stored_time \<Rightarrow> nat \<Rightarrow> string \<Rightarrow> string \<Rightarrow> state \<Rightarrow> bool \<times> state" where
  "handle_supervisor_response stamp request_id ans sup_id st =
     (case get_help_request (requests_collection st) request_id of
        None \<Rightarrow> (False, st)
      | Some request \<Rightarrow>
          (let (ok, rc) = update_help_request stamp request_id ans sup_id RESOLVED
                            (requests_collection st);
               (kid, kc) = add_knowledge stamp (question request) ans ''supervisor''
                             (Some [''learned'', ''supervisor_response'']) (knowledge_collection st);
               st1 = st\<lparr>requests_collection := rc, knowledge_collection := kc\<rparr>
           in (True, follow_up_with_customer (customer_id request) (customer_phone request)
                       (question request) ans st1)))"

section \<open>scheduler.py\<close>

text \<open>
  A \<^verbatim>\<open>datetime\<close> value: naive, or aware of a UTC offset.
\<close>

datatype py_datetime = Naive int | Aware int

text \<open>
  \<^verbatim>\<open>datetime.fromisoformat\<close>: the \<^verbatim>\<open>datetime\<close> of an ISO string; raises \<^verbatim>\<open>TypeError\<close>
  (\<open>None\<close>) on an argument that is not a string.
\<close>

fun fromisoformat :: "stored_time \<Rightarrow> py_datetime option" where
  "fromisoformat (IsoString t) = Some (Naive t)"
| "fromisoformat (IsoStringOffset t) = Some (Aware t)"
| "fromisoformat (Native t) = None"

text \<open>
  \<^verbatim>\<open>created_at < timeout_threshold\<close> with the naive threshold on the right: raises
  \<^verbatim>\<open>TypeError\<close> (\<open>None\<close>) for an aware value on the left.
\<close>

fun less_than_naive :: "py_datetime \<Rightarrow> int \<Rightarrow> bool option" where
  "less_than_naive (Naive t) threshold = Some (t < threshold)"
| "less_than_naive (Aware t) threshold = None"

text \<open>The microseconds of \<open>d\<close> days.\<close>

definition timedelta_days :: "int \<Rightarrow> int" where
  "timedelta_days d = d * 86400000000"

text \<open>
  \<^verbatim>\<open>now - timedelta(days=timeout_days)\<close>: \<^verbatim>\<open>timedelta\<close> raises \<^verbatim>\<open>OverflowError\<close> beyond
  999999999 days, and the subtraction raises it when the result is not between
  \<^verbatim>\<open>datetime.min\<close> and \<^verbatim>\<open>datetime.max\<close> (9999-12-31T23:59:59.999999).
\<close>

definition timeout_threshold :: "int \<Rightarrow> int \<Rightarrow> int option" where
  "timeout_threshold now timeout_days =
     (if timeout_days < - 999999999 \<or> 999999999 < timeout_days then None
      else if now - timedelta_days timeout_days < 0
              \<or> 315537897599999999 < now - timedelta_days timeout_days then None
      else Some (now - timedelta_days timeout_days))"

text \<open>
  The \<^verbatim>\<open>for\<close> loop of \<^verbatim>\<open>check_old_requests\<close> over the fetched requests. An exception
  (from \<^verbatim>\<open>fromisoformat\<close> or from the comparison) leaves the loop: the \<^verbatim>\<open>except\<close> clause
  around it prints and returns, so the requests after it are not looked at.
\<close>

fun sweep_loop ::
  "stored_time \<Rightarrow> int \<Rightarrow> help_request list \<Rightarrow> help_request collection \<Rightarrow> help_request collection" where
  "sweep_loop stamp threshold [] c = c"
| "sweep_loop stamp threshold (request # rest) c =
     (case fromisoformat (created_at request) of
        None \<Rightarrow> c
      | Some created \<Rightarrow>
          (case less_than_naive created threshold of
             None \<Rightarrow> c
           | Some older \<Rightarrow>
               if older
               then sweep_loop stamp threshold rest
                      (snd (mark_request_unresolved stamp (req_id request) c))
               else sweep_loop stamp threshold rest c))"

text \<open>
  \<^verbatim>\<open>RequestScheduler.check_old_requests\<close>, one tick at the local time \<open>now\<close>. The
  \<^verbatim>\<open>except\<close> clause also covers the computation of the threshold.
\<close>

definition check_old_requests ::
  "int \<Rightarrow> int \<Rightarrow> stored_time \<Rightarrow> help_request collection \<Rightarrow> help_request collection" where
  "check_old_requests timeout_days now stamp c =
     (case timeout_threshold now timeout_days of
        None \<Rightarrow> c
      | Some threshold \<Rightarrow> sweep_loop stamp threshold (get_pending_requests c) c)"

section \<open>The windows as the specification words them\<close>

text \<open>
  The specification speaks of the last \<open>n\<close> turn-pairs of a history. A pair is a customer
  turn and the agent turn that answers it, two entries of the list.
\<close>

definition spec_last_turn_pairs :: "nat \<Rightarrow> turn list \<Rightarrow> turn list" where
  "spec_last_turn_pairs n history = last_n (2 * n) history"

section \<open>Example stores\<close>

text \<open>
  A knowledge base whose two entries both contain \<^verbatim>\<open>what are your hours\<close>; three requests
  (a pending one created at instant 0, a pending one created two days later, a resolved
  one); a history of four exchanges.
\<close>

definition kb_ex :: "knowledge_entry collection" where
  "kb_ex =
     [(0, \<lparr>kb_id = 0, kb_question = ''What are your hours?'', kb_answer = ''9-8 Mon-Sat'',
           kb_source = ''initial'', kb_tags = [''hours''], kb_created_at = Native 0,
           kb_updated_at = Native 0, usage_count = 0\<rparr>),
      (1, \<lparr>kb_id = 1, kb_question = ''Sunday?'', kb_answer = ''What are your hours on Sunday? 10-6'',
           kb_source = ''initial'', kb_tags = [], kb_created_at = Native 0,
           kb_updated_at = Native 0, usage_count = 4\<rparr>)]"

definition rc_ex :: "help_request collection" where
  "rc_ex =
     [(0, \<lparr>req_id = 0, question = ''Do you do weddings?'', customer_id = ''c1'',
           customer_phone = None, req_context = EmptyContext, status = PENDING,
           created_at = IsoString 0, resolved_at = None, supervisor_answer = None,
           supervisor_id = None\<rparr>),
      (1, \<lparr>req_id = 1, question = ''Can I bring my pet?'', customer_id = ''c2'',
           customer_phone = None, req_context = EmptyContext, status = PENDING,
           created_at = IsoString 172800000000, resolved_at = None, supervisor_answer = None,
           supervisor_id = None\<rparr>),
      (2, \<lparr>req_id = 2, question = ''Do you sell gift cards?'', customer_id = ''c3'',
           customer_phone = None, req_context = EmptyContext, status = RESOLVED,
           created_at = IsoString 0, resolved_at = Some (Native 5), supervisor_answer = Some ''A'',
           supervisor_id = Some ''s1''\<rparr>)]"

definition h8 :: "turn list" where
  "h8 = [\<lparr>role = ''user'', content = ''q1''\<rparr>, \<lparr>role = ''assistant'', content = ''a1''\<rparr>,
         \<lparr>role = ''user'', content = ''q2''\<rparr>, \<lparr>role = ''assistant'', content = ''a2''\<rparr>,
         \<lparr>role = ''user'', content = ''q3''\<rparr>, \<lparr>role = ''assistant'', content = ''a3''\<rparr>,
         \<lparr>role = ''user'', content = ''q4''\<rparr>, \<lparr>role = ''assistant'', content = ''a4''\<rparr>]"

definition st_ex :: state where
  "st_ex = \<lparr>requests_collection = rc_ex, knowledge_collection = kb_ex,
            conversation_history = Map.empty, system_prompt = ''You are an AI receptionist.''\<rparr>"

definition st_h8 :: state where
  "st_h8 = st_ex\<lparr>conversation_history := [''c1'' \<mapsto> h8]\<rparr>"

text \<open>
  A knowledge base whose first entry does not contain \<^verbatim>\<open>what are your hours\<close> while the
  second and the third do.
\<close>

definition kb_skip :: "knowledge_entry collection" where
  "kb_skip =
     [(0, \<lparr>kb_id = 0, kb_question = ''How much is a haircut?'', kb_answer = ''Men's haircut is $25.'',
           kb_source = ''initial'', kb_tags = [''pricing''], kb_created_at = Native 0,
           kb_updated_at = Native 0, usage_count = 7\<rparr>),
      (1, \<lparr>kb_id = 1, kb_question = ''What are your hours?'', kb_answer = ''9-8 Mon-Sat'',
           kb_source = ''initial'', kb_tags = [''hours''], kb_created_at = Native 0,
           kb_updated_at = Native 0, usage_count = 0\<rparr>),
      (2, \<lparr>kb_id = 2, kb_question = ''Sunday?'', kb_answer = ''What are your hours on Sunday? 10-6'',
           kb_source = ''initial'', kb_tags = [], kb_created_at = Native 0,
           kb_updated_at = Native 0, usage_count = 4\<rparr>)]"

definition st_skip :: state where
  "st_skip = \<lparr>requests_collection = [], knowledge_collection = kb_skip,
              conversation_history = Map.empty, system_prompt = ''You are an AI receptionist.''\<rparr>"

text \<open>A model that answers plainly whatever it is asked.\<close>

definition llm_plain :: "turn list \<Rightarrow> llm_outcome" where
  "llm_plain msgs = Reply ''We can help with that.''"

text \<open>A model that is unsure whatever it is asked.\<close>

definition llm_unsure :: "turn list \<Rightarrow> llm_outcome" where
  "llm_unsure msgs = Reply ''[ESCALATE] unsure''"

lemmas ex_defs = kb_ex_def rc_ex_def st_ex_def st_h8_def h8_def

lemmas search_defs = search_knowledge_def knowledge_matches_def stream_def lower_def lower_char_def
  upper_letters_def lower_letters_def

section \<open>Collections: lookups after writes\<close>

lemma fold_max_ge: "m \<le> fold (\<lambda>kd m. max (Suc (fst kd)) m) c m"
proof (induction c arbitrary: m)
  case Nil show ?case by simp
next
  case (Cons a c)
  have "m \<le> max (Suc (fst a)) m" by simp
  also have "\<dots> \<le> fold (\<lambda>kd m. max (Suc (fst kd)) m) c (max (Suc (fst a)) m)" by (rule Cons.IH)
  finally show ?case by simp
qed

lemma fold_max_greater:
  "kd \<in> set c \<Longrightarrow> fst kd < fold (\<lambda>kd m. max (Suc (fst kd)) m) c m"
proof (induction c arbitrary: m)
  case Nil then show ?case by simp
next
  case (Cons a c)
  show ?case
  proof (cases "kd = a")
    case True
    have "Suc (fst a) \<le> max (Suc (fst a)) m" by simp
    also have "\<dots> \<le> fold (\<lambda>kd m. max (Suc (fst kd)) m) c (max (Suc (fst a)) m)" by (rule fold_max_ge)
    finally show ?thesis using True by simp
  next
    case False
    with Cons.prems have "kd \<in> set c" by simp
    from Cons.IH [OF this] show ?thesis by simp
  qed
qed

lemma auto_id_fresh: "auto_id c \<notin> fst ` set c"
proof
  assume "auto_id c \<in> fst ` set c"
  then obtain kd where "kd \<in> set c" "fst kd = auto_id c" by auto
  with fold_max_greater [of kd c 0] show False by (simp add: auto_id_def)
qed

lemma doc_get_None_iff: "doc_get c k = None \<longleftrightarrow> k \<notin> fst ` set c"
  by (induction c) (auto split: if_splits)

lemma doc_get_auto_id: "doc_get c (auto_id c) = None"
  by (simp add: doc_get_None_iff auto_id_fresh)

lemma doc_get_append: "doc_get (c @ c') k = (case doc_get c k of Some d \<Rightarrow> Some d | None \<Rightarrow> doc_get c' k)"
  by (induction c) auto

lemma doc_update_None_iff: "doc_update f k c = None \<longleftrightarrow> doc_get c k = None"
  by (induction c) (auto split: option.splits if_splits)

lemma doc_get_doc_update:
  "doc_update f k c = Some c' \<Longrightarrow> doc_get c' k' = (if k' = k then map_option f (doc_get c k) else doc_get c k')"
  by (induction c arbitrary: c') (auto split: option.splits if_splits)

lemma doc_update_keys: "doc_update f k c = Some c' \<Longrightarrow> map fst c' = map fst c"
  by (induction c arbitrary: c') (auto split: option.splits if_splits)

lemma doc_update_length: "doc_update f k c = Some c' \<Longrightarrow> length c' = length c"
  by (induction c arbitrary: c') (auto split: option.splits if_splits)

lemma in_set_doc_get: "distinct (map fst c) \<Longrightarrow> (k, d) \<in> set c \<Longrightarrow> doc_get c k = Some d"
  by (induction c) (auto simp: rev_image_eqI)


lemma wf_collection_id: "wf_collection idf c \<Longrightarrow> (k, d) \<in> set c \<Longrightarrow> idf d = k"
  by (auto simp: wf_collection_def list_all_iff)

lemma wf_collection_stream:
  assumes "wf_collection idf c" "d \<in> set (stream c)"
  shows "doc_get c (idf d) = Some d"
proof -
  from assms(2) obtain k where kd: "(k, d) \<in> set c" by (auto simp: stream_def)
  with assms(1) have "idf d = k" by (rule wf_collection_id)
  moreover from assms(1) kd have "doc_get c k = Some d"
    by (simp add: wf_collection_def in_set_doc_get)
  ultimately show ?thesis by simp
qed

lemma find_filter: "find P xs = Some x \<Longrightarrow> \<exists>rest. filter P xs = x # rest"
  by (induction xs) (auto split: if_splits)

lemma filter_Cons_find: "filter P xs = x # rest \<Longrightarrow> find P xs = Some x"
  by (induction xs) (auto split: if_splits)

lemma str_in_iff_sublist: "str_in q s \<longleftrightarrow> sublist q s"
  by (induction s) (auto simp: sublist_Cons_right)





section \<open>The paths of \<^verbatim>\<open>process_question\<close>\<close>

lemma process_question_hit:
  assumes "search_knowledge (knowledge_collection st) q = hit # rest"
  shows "process_question llm rules stamp q cid phone ctx st =
           (\<lparr>response = kb_answer hit, needs_help = False, help_request_id = None,
              knowledge_used = Some (kb_id hit)\<rparr>,
            st\<lparr>conversation_history := (conversation_history st)(cid \<mapsto> turns_of (conversation_history st) cid),
               knowledge_collection := snd (increment_knowledge_usage (kb_id hit) (knowledge_collection st))\<rparr>)"
  using assms
  by (auto simp add: process_question_def Let_def turns_of_def fun_upd_idem
        split: option.splits prod.splits)

lemma process_question_marker:
  assumes "search_knowledge (knowledge_collection st) q = []"
      and "llm (build_messages (system_prompt st) rules (turns_of (conversation_history st) cid) q) = Reply reply"
      and "prefix ESCALATE (strip reply)"
  shows "process_question llm rules stamp q cid phone ctx st =
           (\<lparr>response = escalation_message, needs_help = True,
              help_request_id = Some (auto_id (requests_collection st)), knowledge_used = None\<rparr>,
            st\<lparr>requests_collection := requests_collection st @
                 [(auto_id (requests_collection st),
                   \<lparr>req_id = auto_id (requests_collection st), question = q, customer_id = cid,
                     customer_phone = phone,
                     req_context = EscalationContext (last_n 3 (turns_of (conversation_history st) cid))
                                     (case ctx of None \<Rightarrow> [] | Some x \<Rightarrow> x),
                     status = PENDING, created_at = stamp, resolved_at = None,
                     supervisor_answer = None, supervisor_id = None\<rparr>)],
               conversation_history := (conversation_history st)(cid \<mapsto>
                 turns_of (conversation_history st) cid @
                   [\<lparr>role = ''user'', content = q\<rparr>,
                    \<lparr>role = ''assistant'', content = escalation_message\<rparr>])\<rparr>)"
  using assms
  by (auto simp add: process_question_def Let_def create_help_request_def doc_set_def turns_of_def
        split: option.splits)

lemma process_question_raised:
  assumes "search_knowledge (knowledge_collection st) q = []"
      and "llm (build_messages (system_prompt st) rules (turns_of (conversation_history st) cid) q) = Raised e"
  shows "process_question llm rules stamp q cid phone ctx st =
           (\<lparr>response = fallback_message, needs_help = True,
              help_request_id = Some (auto_id (requests_collection st)), knowledge_used = None\<rparr>,
            st\<lparr>requests_collection := requests_collection st @
                 [(auto_id (requests_collection st),
                   \<lparr>req_id = auto_id (requests_collection st), question = q, customer_id = cid,
                     customer_phone = phone, req_context = ErrorContext e,
                     status = PENDING, created_at = stamp, resolved_at = None,
                     supervisor_answer = None, supervisor_id = None\<rparr>)],
               conversation_history := (conversation_history st)(cid \<mapsto>
                 turns_of (conversation_history st) cid)\<rparr>)"
  using assms
  by (auto simp add: process_question_def Let_def create_help_request_def doc_set_def turns_of_def fun_upd_idem
        split: option.splits)

lemma process_question_others:
  "c \<noteq> cid \<Longrightarrow> conversation_history (snd (process_question llm rules stamp q cid phone ctx st)) c
          = conversation_history st c"
  by (simp add: process_question_def Let_def create_help_request_def
        split: list.splits llm_outcome.splits prod.splits)

lemma process_question_resident:
  "conversation_history (snd (process_question llm rules stamp q cid phone ctx st)) cid \<noteq> None"
  by (simp add: process_question_def Let_def create_help_request_def
        split: list.splits llm_outcome.splits prod.splits)

section \<open>\<^verbatim>\<open>handle_supervisor_response\<close> on a request that exists\<close>

lemma follow_up_requests [simp]:
  "requests_collection (follow_up_with_customer cid phone q a st) = requests_collection st"
  by (simp add: follow_up_with_customer_def split: option.splits)

lemma follow_up_knowledge [simp]:
  "knowledge_collection (follow_up_with_customer cid phone q a st) = knowledge_collection st"
  by (simp add: follow_up_with_customer_def split: option.splits)

lemma handle_supervisor_response_found:
  assumes "doc_get (requests_collection st) k = Some request"
  shows "fst (handle_supervisor_response stamp k ans sup_id st) = True"
    and "doc_get (requests_collection (snd (handle_supervisor_response stamp k ans sup_id st))) k' =
           (if k' = k
            then Some (request\<lparr>supervisor_answer := Some ans, supervisor_id := Some sup_id,
                                status := RESOLVED, resolved_at := Some stamp\<rparr>)
            else doc_get (requests_collection st) k')"
    and "knowledge_collection (snd (handle_supervisor_response stamp k ans sup_id st)) =
           knowledge_collection st @
             [(auto_id (knowledge_collection st),
               \<lparr>kb_id = auto_id (knowledge_collection st), kb_question = question request,
                 kb_answer = ans, kb_source = ''supervisor'',
                 kb_tags = [''learned'', ''supervisor_response''],
                 kb_created_at = stamp, kb_updated_at = stamp, usage_count = 0\<rparr>)]"
proof -
  let ?f = "\<lambda>r. r\<lparr>supervisor_answer := Some ans, supervisor_id := Some sup_id,
                       status := RESOLVED, resolved_at := Some stamp\<rparr>"
  from assms have "doc_update ?f k (requests_collection st) \<noteq> None"
    by (simp add: doc_update_None_iff)
  then obtain rc where rc: "doc_update ?f k (requests_collection st) = Some rc" by blast
  have get: "doc_get rc k' = (if k' = k then Some (?f request)
                              else doc_get (requests_collection st) k')"
    using doc_get_doc_update [OF rc, of k'] assms by simp
  have res: "requests_collection (snd (handle_supervisor_response stamp k ans sup_id st)) = rc"
    using assms rc
    by (simp add: handle_supervisor_response_def get_help_request_def update_help_request_def
          Let_def split: prod.splits)
  show "fst (handle_supervisor_response stamp k ans sup_id st) = True"
    using assms
    by (simp add: handle_supervisor_response_def get_help_request_def Let_def split: prod.splits)
  show "doc_get (requests_collection (snd (handle_supervisor_response stamp k ans sup_id st))) k' =
           (if k' = k
            then Some (request\<lparr>supervisor_answer := Some ans, supervisor_id := Some sup_id,
                                status := RESOLVED, resolved_at := Some stamp\<rparr>)
            else doc_get (requests_collection st) k')"
    unfolding res by (rule get)
  show "knowledge_collection (snd (handle_supervisor_response stamp k ans sup_id st)) =
           knowledge_collection st @
             [(auto_id (knowledge_collection st),
               \<lparr>kb_id = auto_id (knowledge_collection st), kb_question = question request,
                 kb_answer = ans, kb_source = ''supervisor'',
                 kb_tags = [''learned'', ''supervisor_response''],
                 kb_created_at = stamp, kb_updated_at = stamp, usage_count = 0\<rparr>)]"
    using assms
    by (simp add: handle_supervisor_response_def get_help_request_def add_knowledge_def
          doc_set_def Let_def split: prod.splits)
qed

section \<open>The sweep loop\<close>

lemma doc_get_mark_request_unresolved:
  "doc_get (snd (mark_request_unresolved stamp j c)) k =
     (if k = j then map_option (\<lambda>r. r\<lparr>status := UNRESOLVED, resolved_at := Some stamp\<rparr>) (doc_get c k)
      else doc_get c k)"
proof (cases "doc_update (\<lambda>r. r\<lparr>status := UNRESOLVED, resolved_at := Some stamp\<rparr>) j c")
  case None
  then have "doc_get c j = None" by (simp add: doc_update_None_iff)
  with None show ?thesis by (simp add: mark_request_unresolved_def)
next
  case (Some c')
  from doc_get_doc_update [OF Some, of k] Some show ?thesis
    by (simp add: mark_request_unresolved_def)
qed


lemma doc_get_sweep_loop:
  assumes "list_all (\<lambda>r. \<exists>t. created_at r = IsoString t) rs"
  shows "doc_get (sweep_loop stamp th rs c) k =
           (if \<exists>r \<in> set rs. req_id r = k \<and> instant (created_at r) < th
            then map_option (\<lambda>r. r\<lparr>status := UNRESOLVED, resolved_at := Some stamp\<rparr>) (doc_get c k)
            else doc_get c k)"
  using assms
proof (induction rs arbitrary: c)
  case Nil
  show ?case by simp
next
  case (Cons r rs)
  from Cons.prems obtain t where t: "created_at r = IsoString t" by auto
  from Cons.prems have rest: "list_all (\<lambda>r. \<exists>t. created_at r = IsoString t) rs" by simp
  note IH = Cons.IH [OF rest]
  show ?case
  proof (cases "t < th")
    case True
    then show ?thesis
      using t
      by (auto simp add: IH doc_get_mark_request_unresolved option.map_comp comp_def)
  next
    case False
    then show ?thesis
      using t by (auto simp add: IH)
  qed
qed

text \<open>
  A request whose \<^verbatim>\<open>created_at\<close> is not a string ends the loop where it stands.
\<close>

lemma sweep_loop_native:
  "created_at r = Native t \<Longrightarrow> sweep_loop stamp th (r # rs) c = c"
  by simp


section \<open>Usage counters\<close>

lemma increment_knowledge_usage_found:
  assumes "doc_get c k = Some d"
  shows "doc_get (snd (increment_knowledge_usage k c)) k' =
           (if k' = k then Some (d\<lparr>usage_count := usage_count d + 1\<rparr>) else doc_get c k')"
    and "map fst (snd (increment_knowledge_usage k c)) = map fst c"
proof -
  from assms have "doc_update (\<lambda>d. d\<lparr>usage_count := usage_count d + 1\<rparr>) k c \<noteq> None"
    by (simp add: doc_update_None_iff)
  then obtain c' where c': "doc_update (\<lambda>d. d\<lparr>usage_count := usage_count d + 1\<rparr>) k c = Some c'"
    by blast
  then have res: "snd (increment_knowledge_usage k c) = c'"
    by (simp add: increment_knowledge_usage_def)
  show "doc_get (snd (increment_knowledge_usage k c)) k' =
           (if k' = k then Some (d\<lparr>usage_count := usage_count d + 1\<rparr>) else doc_get c k')"
    unfolding res using doc_get_doc_update [OF c', of k'] assms by simp
  show "map fst (snd (increment_knowledge_usage k c)) = map fst c"
    unfolding res by (rule doc_update_keys [OF c'])
qed

lemma find_in_set: "find P xs = Some x \<Longrightarrow> x \<in> set xs"
  by (induction xs) (auto split: if_splits)

lemma find_first_split:
  "find P xs = Some x \<Longrightarrow>
     \<exists>pre post. xs = pre @ x # post \<and> (\<forall>y \<in> set pre. \<not> P y) \<and> P x"
proof (induction xs)
  case Nil
  then show ?case by simp
next
  case (Cons a xs)
  show ?case
  proof (cases "P a")
    case True
    with Cons.prems have "a = x" by simp
    with True have "a # xs = [] @ x # xs \<and> (\<forall>y \<in> set []. \<not> P y) \<and> P x" by simp
    then show ?thesis by blast
  next
    case False
    with Cons.prems have "find P xs = Some x" by simp
    from Cons.IH [OF this] obtain pre post
      where "xs = pre @ x # post" "\<forall>y \<in> set pre. \<not> P y" "P x" by blast
    with False have "a # xs = (a # pre) @ x # post \<and> (\<forall>y \<in> set (a # pre). \<not> P y) \<and> P x"
      by simp
    then show ?thesis by blast
  qed
qed

section \<open>C1: resolving a request that is not pending\<close>

text \<open>
  C1 as the specification states it: resolving a request that is already Resolved fails,
  leaves the request as it was and produces no knowledge entry. On the example store, the
  request 2 is resolved with the answer \<^verbatim>\<open>A\<close>; resolving it again with \<^verbatim>\<open>B\<close> returns
  \<^verbatim>\<open>True\<close>, changes the request and makes the knowledge base one entry longer.
\<close>

theorem double_resolution_counterexample:
  "map_option status (get_help_request (requests_collection st_ex) 2) = Some RESOLVED
   \<and> fst (handle_supervisor_response (Native 9) 2 ''B'' ''s2'' st_ex) = True
   \<and> get_help_request (requests_collection
         (snd (handle_supervisor_response (Native 9) 2 ''B'' ''s2'' st_ex))) 2
       \<noteq> get_help_request (requests_collection st_ex) 2
   \<and> length (knowledge_collection (snd (handle_supervisor_response (Native 9) 2 ''B'' ''s2'' st_ex)))
       = Suc (length (knowledge_collection st_ex))"
  by (simp add: handle_supervisor_response_def get_help_request_def update_help_request_def
        add_knowledge_def doc_set_def follow_up_with_customer_def Let_def ex_defs)

text \<open>
  C1 as amended. \<^verbatim>\<open>handle_supervisor_response\<close> looks only at whether the request exists.
  For a request of any status (Pending, Resolved or Unresolved) it returns \<^verbatim>\<open>True\<close>,
  overwrites \<^verbatim>\<open>supervisor_answer\<close>, \<^verbatim>\<open>supervisor_id\<close> and \<^verbatim>\<open>resolved_at\<close>, sets the status to
  resolved, and appends one knowledge entry with the request's question and the new answer.
\<close>

theorem resolve_any_status:
  assumes "get_help_request (requests_collection st) k = Some request"
      and "handle_supervisor_response stamp k ans sup_id st = (ok, st')"
  shows "ok = True
       \<and> get_help_request (requests_collection st') k =
           Some (request\<lparr>supervisor_answer := Some ans, supervisor_id := Some sup_id,
                          status := RESOLVED, resolved_at := Some stamp\<rparr>)
       \<and> knowledge_collection st' =
           knowledge_collection st @
             [(auto_id (knowledge_collection st),
               \<lparr>kb_id = auto_id (knowledge_collection st), kb_question = question request,
                 kb_answer = ans, kb_source = ''supervisor'',
                 kb_tags = [''learned'', ''supervisor_response''],
                 kb_created_at = stamp, kb_updated_at = stamp, usage_count = 0\<rparr>)]"
proof -
  from assms(1) have found: "doc_get (requests_collection st) k = Some request"
    by (simp add: get_help_request_def)
  from assms(2) have ok: "ok = fst (handle_supervisor_response stamp k ans sup_id st)"
    and st': "st' = snd (handle_supervisor_response stamp k ans sup_id st)" by simp_all
  show ?thesis
    unfolding ok st' get_help_request_def
    using handle_supervisor_response_found [OF found, of stamp ans sup_id]
    by simp
qed

text \<open>
  The theorem at the resolved request 2 of the example store.
\<close>

theorem resolve_any_status_witness:
  "get_help_request (requests_collection st_ex) 2 = Some (snd (rc_ex ! 2))
   \<and> status (snd (rc_ex ! 2)) = RESOLVED
   \<and> fst (handle_supervisor_response (Native 9) 2 ''B'' ''s2'' st_ex) = True
   \<and> map_option supervisor_answer (get_help_request
        (requests_collection (snd (handle_supervisor_response (Native 9) 2 ''B'' ''s2'' st_ex))) 2)
       = Some (Some ''B'')
   \<and> length (knowledge_collection (snd (handle_supervisor_response (Native 9) 2 ''B'' ''s2'' st_ex)))
       = 3"
proof -
  have h1: "get_help_request (requests_collection st_ex) 2 = Some (snd (rc_ex ! 2))"
    by (simp add: get_help_request_def st_ex_def rc_ex_def)
  have h2: "handle_supervisor_response (Native 9) 2 ''B'' ''s2'' st_ex =
      (fst (handle_supervisor_response (Native 9) 2 ''B'' ''s2'' st_ex),
       snd (handle_supervisor_response (Native 9) 2 ''B'' ''s2'' st_ex))"
    by simp
  have h3: "status (snd (rc_ex ! 2)) = RESOLVED" by (simp add: rc_ex_def)
  from resolve_any_status [OF h1 h2] h1 h3 show ?thesis
    by (simp add: st_ex_def kb_ex_def)
qed

section \<open>C2: the update of the sweep\<close>




section \<open>C3: the history windows\<close>

text \<open>
  C3 as the specification states it: the model request carries the last 5 turn-pairs and the
  snapshot of an escalation the last 3 turn-pairs. For a customer with four exchanges in the
  history (8 entries), the stored snapshot is the last 3 entries, not the last 3 pairs,
  and the messages carry the last 5 entries, not the last 5 pairs (here all four).
\<close>

theorem context_window_counterexample:
  "map_option req_context (get_help_request (requests_collection (snd (process_question
       llm_unsure '''' (Native 0) ''Do you do weddings?'' ''c1'' None None
       st_h8))) 3)
     = Some (EscalationContext (last_n 3 h8) [])
   \<and> last_n 3 h8 \<noteq> spec_last_turn_pairs 3 h8
   \<and> build_messages (system_prompt st_h8) '''' h8 ''Do you do weddings?''
     \<noteq> [\<lparr>role = ''system'', content = system_prompt st_h8\<rparr>, \<lparr>role = ''system'', content = ''''\<rparr>]
        @ spec_last_turn_pairs 5 h8 @ [\<lparr>role = ''user'', content = ''Do you do weddings?''\<rparr>]"
proof -
  have h1: "search_knowledge (knowledge_collection st_h8) ''Do you do weddings?'' = []"
    by (simp add: ex_defs search_defs)
  have h2: "prefix ESCALATE (strip ''[ESCALATE] unsure'')"
    by (simp add: ESCALATE_def strip_def is_space_def)
  have h3: "llm_unsure (build_messages (system_prompt st_h8) ''''
               (turns_of (conversation_history st_h8) ''c1'') ''Do you do weddings?'')
             = Reply ''[ESCALATE] unsure''"
    by (simp add: llm_unsure_def)
  have a: "auto_id (requests_collection st_h8) = 3"
    by (simp add: auto_id_def ex_defs)
  have t: "turns_of (conversation_history st_h8) ''c1'' = h8"
    by (simp add: turns_of_def st_h8_def st_ex_def)
  have "map_option req_context (get_help_request (requests_collection (snd (process_question
       llm_unsure '''' (Native 0) ''Do you do weddings?'' ''c1'' None None
       st_h8))) 3)
     = Some (EscalationContext (last_n 3 h8) [])"
    by (simp add: process_question_marker [where llm = llm_unsure, OF h1 h3 h2]
          a t get_help_request_def doc_get_append)
       (simp add: st_h8_def st_ex_def rc_ex_def)
  moreover have "last_n 3 h8 \<noteq> spec_last_turn_pairs 3 h8"
    by (simp add: last_n_def spec_last_turn_pairs_def h8_def)
  moreover have "build_messages (system_prompt st_h8) '''' h8 ''Do you do weddings?''
     \<noteq> [\<lparr>role = ''system'', content = system_prompt st_h8\<rparr>, \<lparr>role = ''system'', content = ''''\<rparr>]
        @ spec_last_turn_pairs 5 h8 @ [\<lparr>role = ''user'', content = ''Do you do weddings?''\<rparr>]"
    by (simp add: build_messages_def last_n_def spec_last_turn_pairs_def h8_def)
  ultimately show ?thesis by blast
qed

text \<open>
  C3 as amended. When the reply carries the marker, the request that
  \<^verbatim>\<open>process_question\<close> creates stores as its snapshot the last 3 entries of the customer's
  history as it was before this call (single turns, not pairs; all of them when there are
  fewer than 3), together with the caller's context (\<^verbatim>\<open>{}\<close> when there is none).
\<close>

theorem escalation_snapshot:
  assumes "search_knowledge (knowledge_collection st) q = []"
      and "llm (build_messages (system_prompt st) rules (turns_of (conversation_history st) cid) q)
             = Reply reply"
      and "prefix ESCALATE (strip reply)"
      and "process_question llm rules stamp q cid phone ctx st = (r, st')"
  shows "\<exists>rid request. help_request_id r = Some rid
           \<and> get_help_request (requests_collection st') rid = Some request
           \<and> req_context request =
               EscalationContext (last_n 3 (turns_of (conversation_history st) cid))
                                 (case ctx of None \<Rightarrow> [] | Some x \<Rightarrow> x)
           \<and> suffix (last_n 3 (turns_of (conversation_history st) cid))
                     (turns_of (conversation_history st) cid)
           \<and> length (last_n 3 (turns_of (conversation_history st) cid))
               = min 3 (length (turns_of (conversation_history st) cid))"
proof -
  have fresh: "doc_get (requests_collection st) (auto_id (requests_collection st)) = None"
    by (rule doc_get_auto_id)
  have "suffix (last_n 3 (turns_of (conversation_history st) cid))
               (turns_of (conversation_history st) cid)"
    by (simp add: last_n_def suffix_drop)
  moreover have "length (last_n 3 (turns_of (conversation_history st) cid))
               = min 3 (length (turns_of (conversation_history st) cid))"
    by (simp add: last_n_def)
  ultimately show ?thesis
    using process_question_marker [where llm = llm and st = st and q = q and cid = cid
            and rules = rules and reply = reply and stamp = stamp and phone = phone and ctx = ctx,
            OF assms(1-3)] assms(4) fresh
    by (auto simp add: get_help_request_def doc_get_append)
qed

text \<open>
  The theorem for the customer with four exchanges: the snapshot is
  \<^verbatim>\<open>a3\<close>, \<^verbatim>\<open>q4\<close>, \<^verbatim>\<open>a4\<close>.
\<close>

theorem escalation_snapshot_witness:
  "search_knowledge (knowledge_collection st_h8) ''Do you do weddings?'' = []
   \<and> prefix ESCALATE (strip ''[ESCALATE] unsure'')
   \<and> (\<exists>rid request.
        help_request_id (fst (process_question (\<lambda>msgs. Reply ''[ESCALATE] unsure'') '''' (Native 0)
          ''Do you do weddings?'' ''c1'' None None st_h8)) = Some rid
        \<and> get_help_request (requests_collection (snd (process_question
             (\<lambda>msgs. Reply ''[ESCALATE] unsure'') '''' (Native 0) ''Do you do weddings?'' ''c1'' None None
             st_h8))) rid = Some request
        \<and> req_context request =
            EscalationContext [\<lparr>role = ''assistant'', content = ''a3''\<rparr>,
                               \<lparr>role = ''user'', content = ''q4''\<rparr>,
                               \<lparr>role = ''assistant'', content = ''a4''\<rparr>] [])"
proof -
  have h1: "search_knowledge (knowledge_collection st_h8) ''Do you do weddings?'' = []"
    by (simp add: ex_defs search_defs)
  have h2: "prefix ESCALATE (strip ''[ESCALATE] unsure'')"
    by (simp add: ESCALATE_def strip_def is_space_def)
  have h3: "process_question (\<lambda>msgs. Reply ''[ESCALATE] unsure'') '''' (Native 0)
          ''Do you do weddings?'' ''c1'' None None st_h8
     = (fst (process_question (\<lambda>msgs. Reply ''[ESCALATE] unsure'') '''' (Native 0)
          ''Do you do weddings?'' ''c1'' None None st_h8),
        snd (process_question (\<lambda>msgs. Reply ''[ESCALATE] unsure'') '''' (Native 0)
          ''Do you do weddings?'' ''c1'' None None st_h8))"
    by simp
  have t: "last_n 3 (turns_of (conversation_history st_h8) ''c1'')
             = [\<lparr>role = ''assistant'', content = ''a3''\<rparr>, \<lparr>role = ''user'', content = ''q4''\<rparr>,
                \<lparr>role = ''assistant'', content = ''a4''\<rparr>]"
    by (simp add: turns_of_def st_h8_def st_ex_def h8_def last_n_def)
  from escalation_snapshot [where llm = "\<lambda>msgs. Reply ''[ESCALATE] unsure''", OF h1 refl h2 h3]
  show ?thesis using h1 h2 unfolding t by auto
qed

section \<open>C4: a knowledge hit\<close>

text \<open>
  C4. When some stored entry contains the lowered question in its lowered question or
  answer text, \<^verbatim>\<open>process_question\<close> answers from the first such entry in the order of the
  store: the entries before it do not contain the question and it does. The response is
  that entry's answer, \<^verbatim>\<open>needs_help\<close> is false, \<^verbatim>\<open>knowledge_used\<close> is its id, its
  \<^verbatim>\<open>usage_count\<close> is one more than before while every other entry is as it was, no
  customer's turns change and no request is created. The store is one in which each
  document carries its own id.
\<close>

theorem knowledge_hit:
  assumes wf: "wf_collection kb_id (knowledge_collection st)"
      and stored: "e \<in> set (stream (knowledge_collection st))"
      and contains: "sublist (lower q) (lower (kb_question e)) \<or> sublist (lower q) (lower (kb_answer e))"
      and run: "process_question llm rules stamp q cid phone ctx st = (r, st')"
  shows "\<exists>pre hit post.
             stream (knowledge_collection st) = pre @ hit # post
           \<and> (\<forall>x \<in> set pre. \<not> sublist (lower q) (lower (kb_question x))
                             \<and> \<not> sublist (lower q) (lower (kb_answer x)))
           \<and> (sublist (lower q) (lower (kb_question hit)) \<or> sublist (lower q) (lower (kb_answer hit)))
           \<and> find (knowledge_matches (lower q)) (stream (knowledge_collection st)) = Some hit
           \<and> r = \<lparr>response = kb_answer hit, needs_help = False, help_request_id = None,
                   knowledge_used = Some (kb_id hit)\<rparr>
           \<and> doc_get (knowledge_collection st') (kb_id hit)
               = Some (hit\<lparr>usage_count := usage_count hit + 1\<rparr>)
           \<and> (\<forall>k. k \<noteq> kb_id hit \<longrightarrow>
                 doc_get (knowledge_collection st') k = doc_get (knowledge_collection st) k)
           \<and> map fst (knowledge_collection st') = map fst (knowledge_collection st)
           \<and> (\<forall>c. turns_of (conversation_history st') c = turns_of (conversation_history st) c)
           \<and> requests_collection st' = requests_collection st"
proof -
  have matches: "knowledge_matches (lower q) x \<longleftrightarrow>
      sublist (lower q) (lower (kb_question x)) \<or> sublist (lower q) (lower (kb_answer x))" for x
    by (simp add: knowledge_matches_def str_in_iff_sublist)
  from contains have "knowledge_matches (lower q) e" by (simp add: matches)
  with stored have "find (knowledge_matches (lower q)) (stream (knowledge_collection st)) \<noteq> None"
    by (auto simp: find_None_iff)
  then obtain hit
    where hit: "find (knowledge_matches (lower q)) (stream (knowledge_collection st)) = Some hit"
    by blast
  from find_first_split [OF hit] obtain pre post
    where split: "stream (knowledge_collection st) = pre @ hit # post"
      and before: "\<forall>x \<in> set pre. \<not> knowledge_matches (lower q) x"
      and here: "knowledge_matches (lower q) hit"
    by blast
  from before
  have before': "\<forall>x \<in> set pre. \<not> sublist (lower q) (lower (kb_question x))
                               \<and> \<not> sublist (lower q) (lower (kb_answer x))"
    by (simp add: matches)
  from here
  have here': "sublist (lower q) (lower (kb_question hit)) \<or> sublist (lower q) (lower (kb_answer hit))"
    by (simp add: matches)
  obtain rest where search: "search_knowledge (knowledge_collection st) q = hit # rest"
    using find_filter [OF hit] by (auto simp: search_knowledge_def)
  from hit have "hit \<in> set (stream (knowledge_collection st))" by (rule find_in_set)
  with wf have get: "doc_get (knowledge_collection st) (kb_id hit) = Some hit"
    by (rule wf_collection_stream)
  note inc = increment_knowledge_usage_found [OF get]
  from run process_question_hit [OF search, of llm rules stamp cid phone ctx]
  have r: "r = \<lparr>response = kb_answer hit, needs_help = False, help_request_id = None,
                 knowledge_used = Some (kb_id hit)\<rparr>"
    and st': "st' = st\<lparr>conversation_history :=
                        (conversation_history st)(cid \<mapsto> turns_of (conversation_history st) cid),
                      knowledge_collection :=
                        snd (increment_knowledge_usage (kb_id hit) (knowledge_collection st))\<rparr>"
    by simp_all
  have "\<forall>c. turns_of (conversation_history st') c = turns_of (conversation_history st) c"
    by (simp add: st' turns_of_def)
  moreover have "doc_get (knowledge_collection st') (kb_id hit)
               = Some (hit\<lparr>usage_count := usage_count hit + 1\<rparr>)"
    by (simp add: st' inc(1))
  moreover have "\<forall>k. k \<noteq> kb_id hit \<longrightarrow>
                 doc_get (knowledge_collection st') k = doc_get (knowledge_collection st) k"
    by (simp add: st' inc(1))
  moreover have "map fst (knowledge_collection st') = map fst (knowledge_collection st)"
    by (simp add: st' inc(2))
  moreover have "requests_collection st' = requests_collection st"
    by (simp add: st')
  ultimately show ?thesis using hit r split before' here' by blast
qed

text \<open>
  The theorem on a store whose first entry, about haircuts, does not contain the question
  \<^verbatim>\<open>What Are Your Hours\<close>, and whose second and third entries do: the second one answers
  and is counted, the first and the third are as they were.
\<close>

theorem knowledge_hit_witness:
  "wf_collection kb_id (knowledge_collection st_skip)
   \<and> snd (kb_skip ! 2) \<in> set (stream (knowledge_collection st_skip))
   \<and> sublist (lower ''What Are Your Hours'') (lower (kb_answer (snd (kb_skip ! 2))))
   \<and> lower ''What Are Your Hours'' = ''what are your hours''
   \<and> lower (kb_question (snd (kb_skip ! 1))) = ''what are your hours?''
   \<and> stream (knowledge_collection st_skip)
       = [snd (kb_skip ! 0)] @ snd (kb_skip ! 1) # [snd (kb_skip ! 2)]
   \<and> \<not> sublist (lower ''What Are Your Hours'') (lower (kb_question (snd (kb_skip ! 0))))
   \<and> \<not> sublist (lower ''What Are Your Hours'') (lower (kb_answer (snd (kb_skip ! 0))))
   \<and> sublist (lower ''What Are Your Hours'') (lower (kb_question (snd (kb_skip ! 1))))
   \<and> fst (process_question llm_plain ''rules'' (Native 0) ''What Are Your Hours'' ''c1''
        None None st_skip)
       = \<lparr>response = ''9-8 Mon-Sat'', needs_help = False, help_request_id = None,
          knowledge_used = Some 1\<rparr>
   \<and> map (\<lambda>kd. usage_count (snd kd)) (knowledge_collection st_skip) = [7, 0, 4]
   \<and> map_option usage_count (doc_get (knowledge_collection (snd (process_question
        llm_plain ''rules'' (Native 0) ''What Are Your Hours'' ''c1'' None None st_skip))) 1)
       = Some 1
   \<and> map_option usage_count (doc_get (knowledge_collection (snd (process_question
        llm_plain ''rules'' (Native 0) ''What Are Your Hours'' ''c1'' None None st_skip))) 0)
       = Some 7
   \<and> map_option usage_count (doc_get (knowledge_collection (snd (process_question
        llm_plain ''rules'' (Native 0) ''What Are Your Hours'' ''c1'' None None st_skip))) 2)
       = Some 4"
proof -
  note defs = st_skip_def kb_skip_def search_defs
  let ?q = "''What Are Your Hours''"
  let ?run = "process_question llm_plain ''rules'' (Native 0) ?q ''c1'' None None st_skip"
  have wf: "wf_collection kb_id (knowledge_collection st_skip)"
    by (simp add: wf_collection_def st_skip_def kb_skip_def)
  have stored: "snd (kb_skip ! 2) \<in> set (stream (knowledge_collection st_skip))"
    by (simp add: stream_def st_skip_def kb_skip_def)
  have sub2: "sublist (lower ?q) (lower (kb_answer (snd (kb_skip ! 2))))"
    unfolding str_in_iff_sublist [symmetric] by (simp add: defs)
  have lq: "lower ?q = ''what are your hours''"
    by (simp add: defs)
  have l1: "lower (kb_question (snd (kb_skip ! 1))) = ''what are your hours?''"
    by (simp add: defs)
  have order: "stream (knowledge_collection st_skip)
       = [snd (kb_skip ! 0)] @ snd (kb_skip ! 1) # [snd (kb_skip ! 2)]"
    by (simp add: stream_def st_skip_def kb_skip_def)
  have no0q: "\<not> sublist (lower ?q) (lower (kb_question (snd (kb_skip ! 0))))"
    unfolding str_in_iff_sublist [symmetric] by (simp add: defs)
  have no0a: "\<not> sublist (lower ?q) (lower (kb_answer (snd (kb_skip ! 0))))"
    unfolding str_in_iff_sublist [symmetric] by (simp add: defs)
  have sub1: "sublist (lower ?q) (lower (kb_question (snd (kb_skip ! 1))))"
    unfolding str_in_iff_sublist [symmetric] by (simp add: defs)
  have first: "find (knowledge_matches (lower ?q)) (stream (knowledge_collection st_skip))
       = Some (snd (kb_skip ! 1))"
    by (simp add: defs)
  have run: "?run = (fst ?run, snd ?run)"
    by simp
  have k1: "snd (kb_skip ! 1) = \<lparr>kb_id = 1, kb_question = ''What are your hours?'',
      kb_answer = ''9-8 Mon-Sat'', kb_source = ''initial'', kb_tags = [''hours''],
      kb_created_at = Native 0, kb_updated_at = Native 0, usage_count = 0\<rparr>"
    by (simp add: kb_skip_def)
  have old: "map (\<lambda>kd. usage_count (snd kd)) (knowledge_collection st_skip) = [7, 0, 4]"
    by (simp add: st_skip_def kb_skip_def)
  have old0: "map_option usage_count (doc_get (knowledge_collection st_skip) 0) = Some 7"
    and old2: "map_option usage_count (doc_get (knowledge_collection st_skip) 2) = Some 4"
    by (simp_all add: st_skip_def kb_skip_def)
  from knowledge_hit [OF wf stored disjI2 [OF sub2] run] obtain hit
    where found: "find (knowledge_matches (lower ?q)) (stream (knowledge_collection st_skip)) = Some hit"
      and r: "fst ?run = \<lparr>response = kb_answer hit, needs_help = False, help_request_id = None,
                           knowledge_used = Some (kb_id hit)\<rparr>"
      and counted: "doc_get (knowledge_collection (snd ?run)) (kb_id hit)
                      = Some (hit\<lparr>usage_count := usage_count hit + 1\<rparr>)"
      and others: "\<forall>k. k \<noteq> kb_id hit \<longrightarrow>
                     doc_get (knowledge_collection (snd ?run)) k = doc_get (knowledge_collection st_skip) k"
    by blast
  from found first have hit: "hit = snd (kb_skip ! 1)" by simp
  have kid: "kb_id hit = 1" and ans: "kb_answer hit = ''9-8 Mon-Sat''" and cnt: "usage_count hit = 0"
    by (simp_all add: hit kb_skip_def)
  from others kid
  have same0: "doc_get (knowledge_collection (snd ?run)) 0 = doc_get (knowledge_collection st_skip) 0"
    and same2: "doc_get (knowledge_collection (snd ?run)) 2 = doc_get (knowledge_collection st_skip) 2"
    by simp_all
  have res: "fst ?run = \<lparr>response = ''9-8 Mon-Sat'', needs_help = False, help_request_id = None,
                     knowledge_used = Some 1\<rparr>
    \<and> map_option usage_count (doc_get (knowledge_collection (snd ?run)) 1) = Some 1
    \<and> map_option usage_count (doc_get (knowledge_collection (snd ?run)) 0) = Some 7
    \<and> map_option usage_count (doc_get (knowledge_collection (snd ?run)) 2) = Some 4"
    using r counted kid ans cnt same0 same2 old0 old2 by simp
  from wf stored sub2 lq l1 order no0q no0a sub1 old res show ?thesis by blast
qed

section \<open>C5: escalation on the marker\<close>



section \<open>C6: the model call fails\<close>

text \<open>
  C6. With no knowledge match and a model call that raises, \<^verbatim>\<open>process_question\<close> still
  returns a response: the fallback deferral text with \<^verbatim>\<open>needs_help\<close> true and the id of a
  new request. That request is Pending, has the input question, and its context is the
  description of the failure.
\<close>

theorem service_failure_fallback:
  assumes "search_knowledge (knowledge_collection st) q = []"
  shows "process_question (\<lambda>msgs. Raised e) rules stamp q cid phone ctx st =
           (\<lparr>response = fallback_message, needs_help = True,
              help_request_id = Some (auto_id (requests_collection st)), knowledge_used = None\<rparr>,
            st\<lparr>requests_collection := requests_collection st @
                 [(auto_id (requests_collection st),
                   \<lparr>req_id = auto_id (requests_collection st), question = q, customer_id = cid,
                     customer_phone = phone, req_context = ErrorContext e,
                     status = PENDING, created_at = stamp, resolved_at = None,
                     supervisor_answer = None, supervisor_id = None\<rparr>)],
               conversation_history := (conversation_history st)(cid \<mapsto>
                 turns_of (conversation_history st) cid)\<rparr>)
         \<and> auto_id (requests_collection st) \<notin> fst ` set (requests_collection st)"
  using process_question_raised [where llm = "\<lambda>msgs. Raised e", OF assms refl]
  by (simp add: auto_id_fresh)

text \<open>
  The theorem on the example store for a call that raises \<^verbatim>\<open>timeout\<close>.
\<close>

theorem service_failure_fallback_witness:
  "search_knowledge (knowledge_collection st_ex) ''Do you do weddings?'' = []
   \<and> fst (process_question (\<lambda>msgs. Raised ''timeout'') '''' (Native 0)
         ''Do you do weddings?'' ''c9'' None None st_ex)
       = \<lparr>response = fallback_message, needs_help = True, help_request_id = Some 3,
          knowledge_used = None\<rparr>
   \<and> map_option req_context (get_help_request (requests_collection (snd (process_question
         (\<lambda>msgs. Raised ''timeout'') '''' (Native 0) ''Do you do weddings?'' ''c9'' None None st_ex))) 3)
       = Some (ErrorContext ''timeout'')"
proof -
  have h1: "search_knowledge (knowledge_collection st_ex) ''Do you do weddings?'' = []"
    by (simp add: ex_defs search_defs)
  have a: "auto_id (requests_collection st_ex) = 3"
    by (simp add: auto_id_def st_ex_def rc_ex_def)
  from service_failure_fallback [OF h1] h1 a show ?thesis
    by (simp add: st_ex_def rc_ex_def get_help_request_def)
qed

section \<open>C7: the timeout sweep\<close>

text \<open>
  C7 on a request that this code has created. \<^verbatim>\<open>create_help_request\<close> writes
  \<^verbatim>\<open>created_at\<close> as a server timestamp, which is read back as a \<^verbatim>\<open>datetime\<close> object and
  not as a string. One tick with a timeout of 2 days, run 3 days after the request was
  created, calls \<^verbatim>\<open>fromisoformat\<close> on that object; the call raises, the \<^verbatim>\<open>except\<close> clause
  ends the tick, and the store is as it was: the request is still Pending. On a store
  whose \<^verbatim>\<open>created_at\<close> fields are ISO strings without offset the same loop marks the old
  requests (lemma \<open>doc_get_sweep_loop\<close>).
\<close>

theorem timeout_sweep_own_request:
  "map_option created_at (get_help_request
       (snd (create_help_request (Native 0) ''Do you do weddings?'' ''c1'' None None [])) 0)
     = Some (Native (259200000000 - timedelta_days 3))
   \<and> map_option status (get_help_request
       (snd (create_help_request (Native 0) ''Do you do weddings?'' ''c1'' None None [])) 0)
     = Some PENDING
   \<and> timeout_threshold 259200000000 2 = Some (259200000000 - timedelta_days 2)
   \<and> check_old_requests 2 259200000000 (Native 259200000000)
       (snd (create_help_request (Native 0) ''Do you do weddings?'' ''c1'' None None []))
     = snd (create_help_request (Native 0) ''Do you do weddings?'' ''c1'' None None [])
   \<and> map_option status (get_help_request
       (check_old_requests 2 259200000000 (Native 259200000000)
          (snd (create_help_request (Native 0) ''Do you do weddings?'' ''c1'' None None []))) 0)
     = Some PENDING"
  by (simp add: check_old_requests_def timeout_threshold_def timedelta_days_def
        get_pending_requests_def stream_def create_help_request_def doc_set_def auto_id_def
        get_help_request_def)

section \<open>C8: resolution and learning\<close>

text \<open>
  C8. Resolving a Pending request makes it Resolved with \<^verbatim>\<open>resolved_at\<close>,
  \<^verbatim>\<open>supervisor_answer\<close> and \<^verbatim>\<open>supervisor_id\<close> set, and the knowledge base afterwards is the
  old one, every entry as it was, followed by exactly one new entry under a fresh id: the
  request's question, the supervisor's answer, source \<^verbatim>\<open>supervisor\<close>, tags \<^verbatim>\<open>learned\<close> and
  \<^verbatim>\<open>supervisor_response\<close>. No existing entry is merged or updated, whatever its question.
\<close>

theorem resolution_and_learning:
  assumes "get_help_request (requests_collection st) k = Some request"
      and "status request = PENDING"
      and "handle_supervisor_response stamp k ans sup_id st = (ok, st')"
  shows "ok = True
       \<and> get_help_request (requests_collection st') k =
           Some (request\<lparr>supervisor_answer := Some ans, supervisor_id := Some sup_id,
                          status := RESOLVED, resolved_at := Some stamp\<rparr>)
       \<and> knowledge_collection st' =
           knowledge_collection st @
             [(auto_id (knowledge_collection st),
               \<lparr>kb_id = auto_id (knowledge_collection st), kb_question = question request,
                 kb_answer = ans, kb_source = ''supervisor'',
                 kb_tags = [''learned'', ''supervisor_response''],
                 kb_created_at = stamp, kb_updated_at = stamp, usage_count = 0\<rparr>)]
       \<and> auto_id (knowledge_collection st) \<notin> fst ` set (knowledge_collection st)"
proof -
  from assms(1) have found: "doc_get (requests_collection st) k = Some request"
    by (simp add: get_help_request_def)
  from assms(3) have ok: "ok = fst (handle_supervisor_response stamp k ans sup_id st)"
    and st': "st' = snd (handle_supervisor_response stamp k ans sup_id st)" by simp_all
  show ?thesis
    unfolding ok st' get_help_request_def
    using handle_supervisor_response_found [OF found, of stamp ans sup_id]
    by (simp add: auto_id_fresh)
qed

text \<open>
  The theorem at the pending request 0 of the example store.
\<close>

theorem resolution_and_learning_witness:
  "get_help_request (requests_collection st_ex) 0 = Some (snd (rc_ex ! 0))
   \<and> status (snd (rc_ex ! 0)) = PENDING
   \<and> fst (handle_supervisor_response (Native 9) 0 ''X'' ''supervisor_1'' st_ex) = True
   \<and> map_option status (get_help_request
        (requests_collection (snd (handle_supervisor_response (Native 9) 0 ''X'' ''supervisor_1'' st_ex))) 0)
       = Some RESOLVED
   \<and> length (knowledge_collection (snd (handle_supervisor_response (Native 9) 0 ''X'' ''supervisor_1'' st_ex)))
       = 3"
proof -
  have h1: "get_help_request (requests_collection st_ex) 0 = Some (snd (rc_ex ! 0))"
    by (simp add: get_help_request_def st_ex_def rc_ex_def)
  have h2: "status (snd (rc_ex ! 0)) = PENDING"
    by (simp add: rc_ex_def)
  have h3: "handle_supervisor_response (Native 9) 0 ''X'' ''supervisor_1'' st_ex =
      (fst (handle_supervisor_response (Native 9) 0 ''X'' ''supervisor_1'' st_ex),
       snd (handle_supervisor_response (Native 9) 0 ''X'' ''supervisor_1'' st_ex))"
    by simp
  from resolution_and_learning [OF h1 h2 h3] h1 h2 show ?thesis
    by (simp add: st_ex_def kb_ex_def)
qed

section \<open>C9: the shape of every result\<close>

text \<open>
  C9. In every result of \<^verbatim>\<open>process_question\<close>, \<^verbatim>\<open>needs_help\<close> holds exactly when
  \<^verbatim>\<open>help_request_id\<close> is not null, and a result that names a knowledge entry does not ask
  for help.
\<close>

theorem process_question_result_invariant:
  "(needs_help (fst (process_question llm rules stamp q cid phone ctx st))
      \<longleftrightarrow> help_request_id (fst (process_question llm rules stamp q cid phone ctx st)) \<noteq> None)
   \<and> (knowledge_used (fst (process_question llm rules stamp q cid phone ctx st)) \<noteq> None
      \<longrightarrow> \<not> needs_help (fst (process_question llm rules stamp q cid phone ctx st)))"
  by (simp add: process_question_def Let_def create_help_request_def
        split: list.splits llm_outcome.splits prod.splits)

text \<open>
  The theorem on a knowledge hit.
\<close>

theorem process_question_result_invariant_witness:
  "knowledge_used (fst (process_question (\<lambda>msgs. Reply ''x'') '''' (Native 0)
       ''what are your hours'' ''c1'' None None st_ex)) = Some 0
   \<and> \<not> needs_help (fst (process_question (\<lambda>msgs. Reply ''x'') '''' (Native 0)
       ''what are your hours'' ''c1'' None None st_ex))
   \<and> help_request_id (fst (process_question (\<lambda>msgs. Reply ''x'') '''' (Native 0)
       ''what are your hours'' ''c1'' None None st_ex)) = None"
proof -
  have hit: "search_knowledge (knowledge_collection st_ex) ''what are your hours''
               = [snd (kb_ex ! 0), snd (kb_ex ! 1)]"
    by (simp add: ex_defs search_defs)
  have used: "knowledge_used (fst (process_question (\<lambda>msgs. Reply ''x'') '''' (Native 0)
       ''what are your hours'' ''c1'' None None st_ex)) = Some 0"
    by (simp add: process_question_hit [OF hit] kb_ex_def)
  with process_question_result_invariant [of "\<lambda>msgs. Reply ''x''" "''''" "Native 0"
       "''what are your hours''" "''c1''" None None st_ex]
  show ?thesis by auto
qed

section \<open>C10: the history map\<close>

text \<open>
  C10. A call for a customer without a history leaves an entry for that customer in the
  history map on every path, an empty list on the knowledge-hit path; and on every path
  the histories of all other customers are as they were.
\<close>

theorem history_frame:
  "(conversation_history st cid = None \<longrightarrow>
      conversation_history (snd (process_question llm rules stamp q cid phone ctx st)) cid \<noteq> None
      \<and> (search_knowledge (knowledge_collection st) q \<noteq> [] \<longrightarrow>
           conversation_history (snd (process_question llm rules stamp q cid phone ctx st)) cid = Some []))
   \<and> (\<forall>c. c \<noteq> cid \<longrightarrow>
         conversation_history (snd (process_question llm rules stamp q cid phone ctx st)) c
           = conversation_history st c)"
proof (intro conjI impI allI)
  show "conversation_history (snd (process_question llm rules stamp q cid phone ctx st)) cid \<noteq> None"
    by (rule process_question_resident)
next
  assume absent: "conversation_history st cid = None"
    and "search_knowledge (knowledge_collection st) q \<noteq> []"
  then obtain hit rest where "search_knowledge (knowledge_collection st) q = hit # rest"
    by (cases "search_knowledge (knowledge_collection st) q") auto
  from process_question_hit [OF this] absent
  show "conversation_history (snd (process_question llm rules stamp q cid phone ctx st)) cid = Some []"
    by (simp add: turns_of_def)
next
  fix c assume "c \<noteq> cid"
  then show "conversation_history (snd (process_question llm rules stamp q cid phone ctx st)) c
           = conversation_history st c"
    by (rule process_question_others)
qed

text \<open>
  The theorem for a new customer \<^verbatim>\<open>c2\<close> on a knowledge hit, next to the customer
  \<^verbatim>\<open>c1\<close> with four exchanges.
\<close>

theorem history_frame_witness:
  "conversation_history st_h8 ''c2'' = None
   \<and> search_knowledge (knowledge_collection st_h8) ''what are your hours'' \<noteq> []
   \<and> conversation_history (snd (process_question (\<lambda>msgs. Reply ''x'') '''' (Native 0)
        ''what are your hours'' ''c2'' None None st_h8)) ''c2'' = Some []
   \<and> ''c1'' \<noteq> ''c2''
   \<and> conversation_history (snd (process_question (\<lambda>msgs. Reply ''x'') '''' (Native 0)
        ''what are your hours'' ''c2'' None None st_h8)) ''c1'' = Some h8"
proof -
  have h1: "conversation_history st_h8 ''c2'' = None"
    by (simp add: st_h8_def st_ex_def)
  have h2: "search_knowledge (knowledge_collection st_h8) ''what are your hours'' \<noteq> []"
    by (simp add: ex_defs search_defs)
  have h3: "''c1'' \<noteq> ''c2''" by simp
  have old: "conversation_history st_h8 ''c1'' = Some h8"
    by (simp add: st_h8_def st_ex_def)
  from history_frame [of st_h8 "''c2''" "\<lambda>msgs. Reply ''x''" "''''" "Native 0"
       "''what are your hours''" None None] h1 h2 h3 old
  show ?thesis by simp
qed

end
